theory Spec2Isabelle
  imports Main "HOL-Library.AList"
begin

section \<open>Values, thrown values and plain objects\<close>

text \<open>
  The store is generic in the values it holds; the model fixes a small universe of
  JavaScript values. \<open>VUndefined\<close> is what a function body without \<open>return\<close> yields.
\<close>

datatype val = VUndefined | VNull | VBool bool | VNum int | VStr string

text \<open>
  A thrown value is either an \<open>Error\<close> instance with its message, or some other value,
  kept as its \<open>String(...)\<close> rendering (all that the source ever reads of it).
\<close>

datatype thrown = Error string | NonError string

text \<open>
  A plain object is the list of its own enumerable properties, in the order in which
  \<open>for (const key in o)\<close> visits them. An object never has two properties of the same
  name, so the lists that stand for caller-supplied objects have distinct keys; this is
  stated as a hypothesis wherever it matters. A key added to an object goes to the end
  of the list; keys that are array indices, which JavaScript enumerates before all
  others, are not treated apart.
\<close>

type_synonym 'a obj = "(string \<times> 'a) list"

definition obj_keys :: "'a obj \<Rightarrow> string list" where
  "obj_keys ob = map fst ob"

text \<open>
  Every object made by an object literal inherits from \<open>Object.prototype\<close>, and
  \<open>key in ob\<close> finds inherited names as well as own ones.
\<close>

definition object_prototype_names :: "string list" where
  "object_prototype_names =
     [''constructor'', ''__defineGetter__'', ''__defineSetter__'', ''hasOwnProperty'',
      ''__lookupGetter__'', ''__lookupSetter__'', ''isPrototypeOf'',
      ''propertyIsEnumerable'', ''toString'', ''valueOf'', ''__proto__'',
      ''toLocaleString'']"

definition has_key :: "string \<Rightarrow> 'a obj \<Rightarrow> bool" where
  \<comment> \<open>\<open>key in ob\<close>, for an object whose prototype is \<open>Object.prototype\<close>\<close>
  "has_key key ob = (key \<in> set (obj_keys ob) \<or> key \<in> set object_prototype_names)"

definition obj_get :: "'a obj \<Rightarrow> string \<Rightarrow> 'a option" where
  "obj_get ob key = map_of ob key"

definition obj_define :: "string \<Rightarrow> 'a \<Rightarrow> 'a obj \<Rightarrow> 'a obj" where
  \<comment> \<open>a property written in an object literal or copied by a spread: an own property
      is overwritten or added, whatever its name\<close>
  "obj_define key v ob = AList.update key v ob"

definition obj_assign :: "'a obj \<Rightarrow> 'a obj \<Rightarrow> 'a obj" where
  \<comment> \<open>copy every property of \<open>src\<close> onto \<open>target\<close>, in order (one spread element)\<close>
  "obj_assign target src = fold (\<lambda>(key, v) acc. obj_define key v acc) src target"

definition obj_spread :: "'a obj \<Rightarrow> 'a obj \<Rightarrow> 'a obj" where
  \<comment> \<open>\<open>{ ...a, ...b }\<close>\<close>
  "obj_spread a b = obj_assign (obj_assign [] a) b"

text \<open>
  An object that starts as \<open>{}\<close> and is filled by assignments \<open>ob[key] = v\<close>. The
  assignment adds or overwrites an own property, except for the key \<open>__proto__\<close>: that
  name is an inherited setter, which makes \<open>v\<close> the prototype of \<open>ob\<close> and adds no own
  property. The cells, computed cells and bound actions that \<open>createStore\<close> assigns are
  objects, which the setter accepts; it ignores a primitive, which the source assigns
  only to a local record that is never read. Reading \<open>ob[key]\<close> finds the own
  properties, and under \<open>__proto__\<close> the prototype that was put there.
\<close>

record 'a built =
  own :: "'a obj"
  proto :: "'a option"

definition empty_object :: "'a built" where
  "empty_object = \<lparr>own = [], proto = None\<rparr>"

definition obj_set :: "string \<Rightarrow> 'a \<Rightarrow> 'a built \<Rightarrow> 'a built" where
  "obj_set key v ob =
     (if key = ''__proto__'' then ob\<lparr>proto := Some v\<rparr>
      else ob\<lparr>own := AList.update key v (own ob)\<rparr>)"

definition obj_read :: "'a built \<Rightarrow> string \<Rightarrow> 'a option" where
  "obj_read ob key = (if key = ''__proto__'' then proto ob else map_of (own ob) key)"

section \<open>Middleware composition\<close>

text \<open>
  \<^verbatim>\<open>middlewares.reduce((acc, middleware) => middleware(acc), config)\<close>
\<close>

definition compose :: "('c \<Rightarrow> 'c) list \<Rightarrow> 'c \<Rightarrow> 'c" where
  "compose middlewares config = foldl (\<lambda>acc middleware. middleware acc) config middlewares"

section \<open>Reactive cells\<close>

text \<open>
  The reactive engine is an external collaborator. A cell made by \<open>signal(v)\<close> is an
  address into a heap of current values: every call allocates a fresh address, reading
  \<open>.value\<close> looks the address up, assigning \<open>.value\<close> updates it. Several objects may
  hold the same cell (the store object is a shallow copy of \<open>stateSignals\<close>).
\<close>

type_synonym addr = nat
type_synonym heap = "val list"

definition signal :: "val \<Rightarrow> heap \<Rightarrow> addr \<times> heap" where
  "signal v h = (length h, h @ [v])"

definition read_value :: "heap \<Rightarrow> addr \<Rightarrow> val" where
  "read_value h a = h ! a"

definition write_value :: "addr \<Rightarrow> val \<Rightarrow> heap \<Rightarrow> heap" where
  "write_value a v h = h[a := v]"

text \<open>
  \<open>BeaconState<TState>\<close>: one cell per state field. A derivation is a function of the
  cell object that reads current values; derivations are taken to be pure and total, as
  their documented contract asks, so reading a computed cell never throws. A raw action
  receives the cell object and the caller's arguments; it may write cells, and it returns
  a value or throws, keeping what it wrote before throwing.
\<close>

type_synonym beacon_state = "addr built"
type_synonym derivation = "beacon_state \<Rightarrow> heap \<Rightarrow> val"
type_synonym raw_action = "beacon_state \<Rightarrow> val list \<Rightarrow> heap \<Rightarrow> (thrown + val) \<times> heap"
type_synonym bound_action = "val list \<Rightarrow> heap \<Rightarrow> (thrown + val) \<times> heap"

datatype snapshot_options = SnapshotOptions (withDerived: bool)

text \<open>
  The properties of the object that \<open>createStore\<close> returns: a state cell, a computed
  cell (the closure handed to \<open>computed\<close>), the action map, or the snapshot function.
\<close>

datatype property =
    Signal addr
  | Computed "heap \<Rightarrow> val"
  | Actions "bound_action built"
  | Snapshot "snapshot_options option \<Rightarrow> heap \<Rightarrow> thrown + val obj"

type_synonym store = "property obj"

section \<open>The world outside the store\<close>

text \<open>
  \<open>window.localStorage\<close> is a keyed surface of strings whose reads and writes may throw
  (access denied, quota exceeded); \<open>console.error\<close> appends a line made of its two
  arguments. Callbacks registered with \<open>effect\<close> act on this environment; \<open>effect\<close> runs
  its callback once at registration and keeps it for the engine to run again.
\<close>

record env =
  heap :: heap
  items :: "string obj"
  read_fault :: "thrown option"
  write_fault :: "thrown option"
  console :: "(string \<times> string) list"

record world =
  env :: env
  effects :: "(env \<Rightarrow> env) list"

definition getItem :: "string \<Rightarrow> env \<Rightarrow> thrown + string option" where
  "getItem key e =
     (case read_fault e of Some err \<Rightarrow> Inl err | None \<Rightarrow> Inr (obj_get (items e) key))"

definition setItem :: "string \<Rightarrow> string \<Rightarrow> env \<Rightarrow> (thrown + unit) \<times> env" where
  "setItem key s e =
     (case write_fault e of
        Some err \<Rightarrow> (Inl err, e)
      | None \<Rightarrow> (Inr (), e\<lparr>items := AList.update key s (items e)\<rparr>))"

definition error_text :: "thrown \<Rightarrow> string" where
  \<comment> \<open>\<open>error instanceof Error ? error.message : String(error)\<close>\<close>
  "error_text err = (case err of Error msg \<Rightarrow> msg | NonError s \<Rightarrow> s)"

definition console_error :: "string \<Rightarrow> string \<Rightarrow> env \<Rightarrow> env" where
  "console_error label msg e = e\<lparr>console := console e @ [(label, msg)]\<rparr>"

definition effect :: "(env \<Rightarrow> env) \<Rightarrow> world \<Rightarrow> world" where
  "effect cb w = w\<lparr>env := cb (env w), effects := effects w @ [cb]\<rparr>"

section \<open>Store configuration\<close>

type_synonym hook = "store \<Rightarrow> world \<Rightarrow> (thrown + unit) \<times> world"

record config =
  initialState :: "val obj"
  derived :: "derivation obj option"
  actions :: "raw_action obj option"
  onStoreCreated :: "hook option"

section \<open>createStore\<close>

text \<open>
  \<^verbatim>\<open>for (const key in config.initialState) {
      stateSignals[key] = signal(config.initialState[key]); }\<close>
\<close>

definition create_state_signals :: "val obj \<Rightarrow> heap \<Rightarrow> beacon_state \<times> heap" where
  "create_state_signals init h =
     fold (\<lambda>(key, v) (stateSignals, h0).
             let (cell, h1) = signal v h0 in (obj_set key cell stateSignals, h1))
          init (empty_object, h)"

definition conflict_message :: "string \<Rightarrow> string" where
  \<comment> \<open>\<open>`Derived key '${key}' conflicts with state signal`\<close>\<close>
  "conflict_message key =
     ''Derived key '' @ [CHR 0x27] @ key @ [CHR 0x27] @ '' conflicts with state signal''"

text \<open>
  The loop over \<open>config.derived\<close>: the first key that \<open>key in stateSignals\<close> finds throws;
  every other key gets \<open>computed(() => config.derived[key](stateSignals))\<close>. The test
  finds the own keys of \<open>stateSignals\<close> and the names inherited from \<open>Object.prototype\<close>.
  When a state field named \<open>__proto__\<close> has made a cell the prototype of \<open>stateSignals\<close>,
  it also finds the names of that cell, which belong to the engine and are not listed
  here; the properties below that depend on the test exclude such a field.
\<close>

fun create_derived ::
  "derivation obj \<Rightarrow> beacon_state \<Rightarrow> (heap \<Rightarrow> val) built \<Rightarrow> thrown + (heap \<Rightarrow> val) built" where
  "create_derived [] stateSignals acc = Inr acc"
| "create_derived ((key, f) # rest) stateSignals acc =
     (if has_key key (own stateSignals) then Inl (Error (conflict_message key))
      else create_derived rest stateSignals (obj_set key (\<lambda>h. f stateSignals h) acc))"

text \<open>
  \<^verbatim>\<open>actions[actionName] = (...args) => {
      config.actions![actionName](stateSignals, ...args); };\<close>
  The arrow function has a block body without \<open>return\<close>: what the raw action returns is
  dropped, what it throws propagates, what it writes stays written.
\<close>

definition bind_action :: "raw_action \<Rightarrow> beacon_state \<Rightarrow> bound_action" where
  "bind_action raw stateSignals =
     (\<lambda>args h. case raw stateSignals args h of
                  (Inl err, h') \<Rightarrow> (Inl err, h')
                | (Inr r, h') \<Rightarrow> (Inr VUndefined, h'))"

definition create_actions :: "raw_action obj \<Rightarrow> beacon_state \<Rightarrow> bound_action built" where
  "create_actions acts stateSignals =
     fold (\<lambda>(actionName, raw) acc. obj_set actionName (bind_action raw stateSignals) acc)
          acts empty_object"

text \<open>
  \<^verbatim>\<open>const getStateSnapshot = () => {
      const state = {};
      for (const key in stateSignals) { state[key] = stateSignals[key].value; }
      return state; };\<close>
  The function declares no parameter: an options argument passed by a caller is ignored.
  The loop visits the own keys of \<open>stateSignals\<close>. When a cell has become the prototype of
  \<open>stateSignals\<close>, it goes on to the enumerable fields of that cell; they are internal to
  the engine, one of them holds \<open>undefined\<close>, and reading \<open>.value\<close> of it throws a
  \<open>TypeError\<close>. The value returned is the record of own properties of \<open>state\<close>.
\<close>

definition getStateSnapshot ::
  "beacon_state \<Rightarrow> snapshot_options option \<Rightarrow> heap \<Rightarrow> thrown + val obj" where
  "getStateSnapshot stateSignals opt h =
     (case proto stateSignals of
        Some cell \<Rightarrow> Inl (Error ''Cannot read properties of undefined'')
      | None \<Rightarrow>
          Inr (own (fold (\<lambda>(key, cell) state. obj_set key (read_value h cell) state)
                         (own stateSignals) empty_object)))"

definition store_object ::
  "beacon_state \<Rightarrow> (heap \<Rightarrow> val) built \<Rightarrow> bound_action built \<Rightarrow> store" where
  \<comment> \<open>\<open>{ ...stateSignals, ...derived, actions, getStateSnapshot }\<close>; a spread copies
      own properties only\<close>
  "store_object stateSignals der acts =
     obj_define ''getStateSnapshot'' (Snapshot (getStateSnapshot stateSignals))
       (obj_define ''actions'' (Actions acts)
          (obj_spread (map (\<lambda>(key, cell). (key, Signal cell)) (own stateSignals))
                      (map (\<lambda>(key, c). (key, Computed c)) (own der))))"

definition createStore :: "config \<Rightarrow> heap \<Rightarrow> (thrown + store) \<times> heap" where
  "createStore cfg h =
     (let (stateSignals, h1) = create_state_signals (initialState cfg) h in
      case (case derived cfg of
              None \<Rightarrow> Inr empty_object
            | Some d \<Rightarrow> create_derived d stateSignals empty_object) of
        Inl err \<Rightarrow> (Inl err, h1)
      | Inr der \<Rightarrow>
          (let acts = (case actions cfg of
                         None \<Rightarrow> empty_object
                       | Some a \<Rightarrow> create_actions a stateSignals)
           in (Inr (store_object stateSignals der acts), h1)))"

text \<open>
  The values of \<open>createStore\<close>'s local variables \<open>derived\<close> and \<open>actions\<close> once its loops
  have run without throwing.
\<close>

definition derived_cells :: "config \<Rightarrow> beacon_state \<Rightarrow> (heap \<Rightarrow> val) built" where
  "derived_cells cfg sigs =
     (case derived cfg of
        None \<Rightarrow> empty_object
      | Some d \<Rightarrow> fold (\<lambda>(key, f) acc. obj_set key (f sigs) acc) d empty_object)"

definition bound_actions :: "config \<Rightarrow> beacon_state \<Rightarrow> bound_action built" where
  "bound_actions cfg sigs =
     (case actions cfg of None \<Rightarrow> empty_object | Some a \<Rightarrow> create_actions a sigs)"

section \<open>Using a store\<close>

text \<open>
  \<open>store.getStateSnapshot(opt)\<close> and \<open>store.actions.name(...args)\<close>, as a caller writes
  them: the property is looked up on the store object and called; calling something that
  is not a function throws a \<open>TypeError\<close>. The methods that the action map inherits from
  \<open>Object.prototype\<close> are not actions and are not represented.
\<close>

definition call_getStateSnapshot ::
  "store \<Rightarrow> snapshot_options option \<Rightarrow> heap \<Rightarrow> thrown + val obj" where
  "call_getStateSnapshot st opt h =
     (case obj_get st ''getStateSnapshot'' of
        Some (Snapshot snap) \<Rightarrow> snap opt h
      | _ \<Rightarrow> Inl (Error ''store.getStateSnapshot is not a function''))"

definition call_action ::
  "store \<Rightarrow> string \<Rightarrow> val list \<Rightarrow> heap \<Rightarrow> (thrown + val) \<times> heap" where
  "call_action st actionName args h =
     (case obj_get st ''actions'' of
        Some (Actions acts) \<Rightarrow>
          (case obj_read acts actionName of
             Some bound \<Rightarrow> bound args h
           | None \<Rightarrow> (Inl (Error (''store.actions.'' @ actionName @ '' is not a function'')), h))
      | _ \<Rightarrow> (Inl (Error (''store.actions.'' @ actionName @ '' is not a function'')), h))"

section \<open>Persistence middleware\<close>

record options =
  name :: string
  merge :: "bool option"
  serialize :: "(val obj \<Rightarrow> thrown + string) option"
  deserialize :: "(string \<Rightarrow> thrown + val obj) option"

text \<open>
  The defaults \<open>JSON.stringify\<close> and \<open>JSON.parse\<close> belong to the runtime, not to the
  repository: they are a parameter of the model.
\<close>

record json =
  stringify :: "val obj \<Rightarrow> thrown + string"
  parse :: "string \<Rightarrow> thrown + val obj"

text \<open>
  The body of the \<open>try\<close> block: \<open>getItem\<close> may throw, a missing or empty item is falsy and
  leaves \<open>storedState\<close> empty, anything else goes through \<open>deserialize\<close>, which may throw.
\<close>

definition read_stored_state ::
  "(string \<Rightarrow> thrown + val obj) \<Rightarrow> string \<Rightarrow> env \<Rightarrow> thrown + val obj" where
  "read_stored_state deser nm e =
     (case getItem nm e of
        Inl err \<Rightarrow> Inl err
      | Inr stored \<Rightarrow>
          (case stored of
             None \<Rightarrow> Inr []
           | Some s \<Rightarrow> if s \<noteq> [] then deser s else Inr []))"

text \<open>The \<open>try\<close> with its \<open>catch\<close>: a thrown value is logged and \<open>storedState\<close> stays \<open>{}\<close>.\<close>

definition load_stored_state ::
  "(string \<Rightarrow> thrown + val obj) \<Rightarrow> string \<Rightarrow> env \<Rightarrow> val obj \<times> env" where
  "load_stored_state deser nm e =
     (case read_stored_state deser nm e of
        Inl err \<Rightarrow> ([], console_error ''Failed to load state from localStorage:'' (error_text err) e)
      | Inr storedState \<Rightarrow> (storedState, e))"

text \<open>
  \<open>saveToStorage\<close>: the snapshot is asked of the store object with
  \<open>{ withDerived: false }\<close>; a store object without a callable \<open>getStateSnapshot\<close>, a
  throwing \<open>serialize\<close> and a throwing \<open>setItem\<close> all end in the \<open>catch\<close>.
\<close>

definition try_save ::
  "store \<Rightarrow> string \<Rightarrow> (val obj \<Rightarrow> thrown + string) \<Rightarrow> env \<Rightarrow> (thrown + unit) \<times> env" where
  "try_save st nm ser e =
     (case call_getStateSnapshot st (Some (SnapshotOptions False)) (heap e) of
        Inl err \<Rightarrow> (Inl err, e)
      | Inr snapshot \<Rightarrow>
          (case ser snapshot of
             Inl err \<Rightarrow> (Inl err, e)
           | Inr text \<Rightarrow> setItem nm text e))"

definition saveToStorage ::
  "store \<Rightarrow> string \<Rightarrow> (val obj \<Rightarrow> thrown + string) \<Rightarrow> env \<Rightarrow> env" where
  "saveToStorage st nm ser e =
     (case try_save st nm ser e of
        (Inl err, e') \<Rightarrow>
          console_error ''Failed to save state to localStorage:'' (error_text err) e'
      | (Inr u, e') \<Rightarrow> e')"

definition property_value :: "property \<Rightarrow> heap \<Rightarrow> val" where
  \<comment> \<open>\<open>store[key].value\<close>; the action map and the snapshot function have no \<open>value\<close>\<close>
  "property_value p h =
     (case p of
        Signal cell \<Rightarrow> read_value h cell
      | Computed c \<Rightarrow> c h
      | Actions acts \<Rightarrow> VUndefined
      | Snapshot snap \<Rightarrow> VUndefined)"

text \<open>
  The callback handed to \<open>effect\<close>: for every key of the new initial state it fills a
  local record that is never used, and calls \<open>saveToStorage\<close>.
\<close>

definition sync_effect ::
  "val obj \<Rightarrow> store \<Rightarrow> string \<Rightarrow> (val obj \<Rightarrow> thrown + string) \<Rightarrow> env \<Rightarrow> env" where
  "sync_effect init st nm ser e =
     fold (\<lambda>(key, v) e0.
             let stateToPersist =
                   (if has_key key st
                    then obj_set key
                           (case obj_get st key of
                              Some p \<Rightarrow> property_value p (heap e0)
                            | None \<Rightarrow> VUndefined)
                           empty_object
                    else empty_object)
             in saveToStorage st nm ser e0)
          init e"

definition newOnStoreCreated ::
  "val obj \<Rightarrow> string \<Rightarrow> (val obj \<Rightarrow> thrown + string) \<Rightarrow> hook option \<Rightarrow> hook" where
  "newOnStoreCreated init nm ser originalOnStoreCreated =
     (\<lambda>st w.
        let w1 = effect (sync_effect init st nm ser) w in
        case originalOnStoreCreated of
          Some original \<Rightarrow> original st w1
        | None \<Rightarrow> (Inr (), w1))"

definition localStoragePlugin :: "json \<Rightarrow> config \<Rightarrow> options \<Rightarrow> env \<Rightarrow> config \<times> env" where
  "localStoragePlugin JSON cfg opts e =
     (let nm = name opts;
          mrg = (case merge opts of None \<Rightarrow> True | Some b \<Rightarrow> b);
          ser = (case serialize opts of None \<Rightarrow> stringify JSON | Some f \<Rightarrow> f);
          deser = (case deserialize opts of None \<Rightarrow> parse JSON | Some f \<Rightarrow> f);
          (storedState, e1) = load_stored_state deser nm e;
          init = (if mrg then obj_spread (initialState cfg) storedState
                  else obj_assign [] storedState);
          originalOnStoreCreated = onStoreCreated cfg
      in (cfg\<lparr>initialState := init,
               onStoreCreated := Some (newOnStoreCreated init nm ser originalOnStoreCreated)\<rparr>,
          e1))"

section \<open>Example configurations\<close>

text \<open>
  The configurations of the repository's own tests, used to run the definitions:
  \<open>initialState: { foo: "bar", baz: "qux" }\<close>, a derivation \<open>derivedFoo\<close> that reads
  \<open>state.foo.value\<close> (the upper-casing of the test is left out), and the action
  \<open>setFoo: (state, val) => { state.foo.value = val; }\<close>. \<open>putFoo\<close> is the same action
  written with an expression body, \<open>(state, val) => (state.foo.value = val)\<close>, which
  returns the value it assigns.
\<close>

definition derivedFoo :: derivation where
  "derivedFoo state h =
     (case obj_read state ''foo'' of Some cell \<Rightarrow> read_value h cell | None \<Rightarrow> VUndefined)"

definition first_arg :: "val list \<Rightarrow> val" where
  "first_arg args = (case args of [] \<Rightarrow> VUndefined | v # rest \<Rightarrow> v)"

definition setFoo :: raw_action where
  "setFoo state args h =
     (case obj_read state ''foo'' of
        None \<Rightarrow> (Inl (Error ''state.foo is undefined''), h)
      | Some cell \<Rightarrow> (Inr VUndefined, write_value cell (first_arg args) h))"

definition putFoo :: raw_action where
  "putFoo state args h =
     (case obj_read state ''foo'' of
        None \<Rightarrow> (Inl (Error ''state.foo is undefined''), h)
      | Some cell \<Rightarrow> (Inr (first_arg args), write_value cell (first_arg args) h))"

definition test_config :: config where
  "test_config =
     \<lparr>initialState = [(''foo'', VStr ''bar''), (''baz'', VStr ''qux'')],
      derived = Some [(''derivedFoo'', derivedFoo)],
      actions = Some [(''setFoo'', setFoo), (''putFoo'', putFoo)],
      onStoreCreated = None\<rparr>"

text \<open>The store that \<open>createStore\<close> builds from \<open>test_config\<close> on an empty heap.\<close>

definition test_signals :: beacon_state where
  "test_signals = \<lparr>own = [(''foo'', 0), (''baz'', 1)], proto = None\<rparr>"

definition test_heap :: heap where
  "test_heap = [VStr ''bar'', VStr ''qux'']"

definition test_store :: store where
  "test_store =
     store_object test_signals (derived_cells test_config test_signals)
       (bound_actions test_config test_signals)"









text \<open>
  A storage surface with one item under the key \<open>app\<close>, and a toy text format: the
  serializer writes the keys of the record, the deserializer knows one text and throws
  on any other.
\<close>

definition toy_serialize :: "val obj \<Rightarrow> thrown + string" where
  "toy_serialize ob = Inr (concat (map fst ob))"

definition toy_deserialize :: "string \<Rightarrow> thrown + val obj" where
  "toy_deserialize s =
     (if s = ''foo=stored'' then Inr [(''foo'', VStr ''stored'')]
      else Inl (Error ''Unexpected token''))"

definition toy_json :: json where
  "toy_json = \<lparr>stringify = toy_serialize, parse = toy_deserialize\<rparr>"

definition test_env :: "string \<Rightarrow> env" where
  "test_env stored =
     \<lparr>heap = [], items = [(''app'', stored)], read_fault = None, write_fault = None,
      console = []\<rparr>"

definition test_options :: "bool option \<Rightarrow> options" where
  "test_options m = \<lparr>name = ''app'', merge = m, serialize = None, deserialize = None\<rparr>"

text \<open>
  A post-creation hook that logs the item it finds stored under \<open>app\<close> when it runs, a
  configuration that carries it, and a world whose heap holds the cells of \<open>test_store\<close>.
\<close>

definition logging_hook :: hook where
  "logging_hook st w =
     (Inr (),
      w\<lparr>env := console_error ''hook''
                  (case obj_get (items (env w)) ''app'' of Some s \<Rightarrow> s | None \<Rightarrow> [])
                  (env w)\<rparr>)"

definition hooked_config :: config where
  "hooked_config = test_config\<lparr>onStoreCreated := Some logging_hook\<rparr>"

definition test_world :: world where
  "test_world = \<lparr>env = (test_env ''foo=stored'')\<lparr>heap := test_heap\<rparr>, effects = []\<rparr>"

section \<open>Facts about plain and built objects\<close>

lemma map_of_obj_define: "map_of (obj_define key v ob) = (map_of ob)(key \<mapsto> v)"
  by (simp add: obj_define_def update_conv')

lemma obj_define_fresh: "key \<notin> set (map fst ob) \<Longrightarrow> obj_define key v ob = ob @ [(key, v)]"
  by (induction ob) (auto simp: obj_define_def)

lemma update_fresh: "key \<notin> set (map fst ob) \<Longrightarrow> AList.update key v ob = ob @ [(key, v)]"
  by (induction ob) auto

lemma map_of_obj_assign:
  "map_of (obj_assign target src) = map_of target ++ map_of (rev src)"
  unfolding obj_assign_def
proof (induction src arbitrary: target)
  case Nil
  then show ?case by simp
next
  case (Cons p src)
  obtain k v where p: "p = (k, v)" by (cases p)
  have "map_of (fold (\<lambda>(key, v). obj_define key v) (p # src) target)
        = map_of (obj_define k v target) ++ map_of (rev src)"
    by (simp add: p Cons.IH)
  also have "\<dots> = map_of target ++ map_of (rev (p # src))"
    by (rule ext) (simp add: p map_of_obj_define map_add_def split: option.splits)
  finally show ?case .
qed

lemma obj_assign_fresh:
  "distinct (map fst src) \<Longrightarrow> set (map fst src) \<inter> set (map fst target) = {} \<Longrightarrow>
   obj_assign target src = target @ src"
  unfolding obj_assign_def
proof (induction src arbitrary: target)
  case Nil
  then show ?case by simp
next
  case (Cons p src)
  obtain k v where p: "p = (k, v)" by (cases p)
  from Cons.prems have fresh: "k \<notin> set (map fst target)" by (auto simp: p)
  from Cons.prems have "distinct (map fst src)"
    and "set (map fst src) \<inter> set (map fst (target @ [(k, v)])) = {}"
    by (auto simp: p)
  then have "fold (\<lambda>(key, v). obj_define key v) src (target @ [(k, v)]) = (target @ [(k, v)]) @ src"
    by (rule Cons.IH)
  then show ?case by (simp add: p obj_define_fresh [OF fresh])
qed

lemma obj_assign_empty:
  "distinct (map fst src) \<Longrightarrow> obj_assign [] src = src"
  using obj_assign_fresh [of src "[]"] by simp

lemma map_of_rev_distinct:
  assumes "distinct (map fst xs)"
  shows "map_of (rev xs) = map_of xs"
proof (rule ext)
  fix k
  from assms have d: "distinct (map fst (rev xs))" by (simp add: rev_map [symmetric])
  show "map_of (rev xs) k = map_of xs k"
  proof (cases "map_of xs k")
    case None
    then have "k \<notin> fst ` set xs" by (simp add: map_of_eq_None_iff)
    then have "map_of (rev xs) k = None" by (simp add: map_of_eq_None_iff)
    with None show ?thesis by simp
  next
    case (Some v)
    with assms have "(k, v) \<in> set (rev xs)" by simp
    with d have "map_of (rev xs) k = Some v" by (simp only: map_of_eq_Some_iff)
    with Some show ?thesis by simp
  qed
qed


lemma map_of_rev_map_snd:
  "map_of (rev (map (\<lambda>(key, x). (key, g x)) xs)) k = map_option g (map_of (rev xs) k)"
  unfolding rev_map by (simp add: map_of_map)

lemma map_of_obj_spread:
  assumes "distinct (map fst a)" and "distinct (map fst b)"
  shows "map_of (obj_spread a b) = map_of a ++ map_of b"
  by (simp add: obj_spread_def map_of_obj_assign map_of_rev_distinct assms)

lemma obj_spread_empty:
  "distinct (map fst a) \<Longrightarrow> obj_spread a [] = a"
  by (simp add: obj_spread_def obj_assign_empty) (simp add: obj_assign_def)

lemma obj_read_obj_set:
  "obj_read (obj_set key v ob) n = (if n = key then Some v else obj_read ob n)"
  by (simp add: obj_read_def obj_set_def update_conv')

lemma obj_read_fold:
  "obj_read (fold (\<lambda>(key, x) acc. obj_set key (g x) acc) xs ob) n
   = (case map_of (rev xs) n of Some x \<Rightarrow> Some (g x) | None \<Rightarrow> obj_read ob n)"
proof (induction xs arbitrary: ob)
  case Nil
  then show ?case by simp
next
  case (Cons p xs)
  obtain k x where p: "p = (k, x)" by (cases p)
  show ?case
    by (simp add: p Cons.IH obj_read_obj_set map_add_def split: option.splits)
qed

lemma obj_read_fold_distinct:
  assumes "distinct (map fst xs)"
  shows "obj_read (fold (\<lambda>(key, x) acc. obj_set key (g x) acc) xs empty_object) n
         = map_option g (map_of xs n)"
proof -
  have "obj_read (empty_object :: 'b built) n = None"
    by (simp add: obj_read_def empty_object_def)
  then show ?thesis
    unfolding obj_read_fold map_of_rev_distinct [OF assms]
    by (simp split: option.splits)
qed

lemma own_fold_plain:
  "distinct (map fst xs) \<Longrightarrow> ''__proto__'' \<notin> set (map fst xs) \<Longrightarrow>
   set (map fst xs) \<inter> set (map fst (own ob)) = {} \<Longrightarrow>
   fold (\<lambda>(key, x) acc. obj_set key (g x) acc) xs ob
   = ob\<lparr>own := own ob @ map (\<lambda>(key, x). (key, g x)) xs\<rparr>"
proof (induction xs arbitrary: ob)
  case Nil
  then show ?case by simp
next
  case (Cons p xs)
  obtain k x where p: "p = (k, x)" by (cases p)
  from Cons.prems have k: "k \<noteq> ''__proto__''" "k \<notin> set (map fst (own ob))"
    by (auto simp: p)
  then have step: "obj_set k (g x) ob = ob\<lparr>own := own ob @ [(k, g x)]\<rparr>"
    by (simp add: obj_set_def update_fresh)
  from Cons.prems have "distinct (map fst xs)" "''__proto__'' \<notin> set (map fst xs)"
    "set (map fst xs) \<inter> set (map fst (own (ob\<lparr>own := own ob @ [(k, g x)]\<rparr>))) = {}"
    by (auto simp: p)
  from Cons.IH [OF this] show ?case
    by (simp add: p step)
qed

section \<open>What createStore builds\<close>

lemma signals_step:
  "fold (\<lambda>(key, v) (stateSignals, h0).
           let (cell, h1) = signal v h0 in (obj_set key cell stateSignals, h1))
        ((k, v) # init) (ob, h)
   = fold (\<lambda>(key, v) (stateSignals, h0).
           let (cell, h1) = signal v h0 in (obj_set key cell stateSignals, h1))
        init (obj_set k (length h) ob, h @ [v])"
  by (simp add: signal_def)

lemma signals_heap_fold:
  "snd (fold (\<lambda>(key, v) (stateSignals, h0).
           let (cell, h1) = signal v h0 in (obj_set key cell stateSignals, h1))
        init (ob, h))
   = h @ map snd init"
proof (induction init arbitrary: ob h)
  case Nil
  then show ?case by simp
next
  case (Cons p init)
  obtain k v where p: "p = (k, v)" by (cases p)
  show ?case unfolding p signals_step Cons.IH by simp
qed

lemma signals_read_fold:
  "obj_read (fst (fold (\<lambda>(key, v) (stateSignals, h0).
           let (cell, h1) = signal v h0 in (obj_set key cell stateSignals, h1))
        init (ob, h))) n
   = (case map_of (rev (zip (map fst init) [length h ..< length h + length init])) n of
        Some cell \<Rightarrow> Some cell
      | None \<Rightarrow> obj_read ob n)"
proof (induction init arbitrary: ob h)
  case Nil
  then show ?case by simp
next
  case (Cons p init)
  obtain k v where p: "p = (k, v)" by (cases p)
  have z: "zip (map fst (p # init)) [length h ..< length h + length (p # init)]
           = (k, length h) # zip (map fst init) [length (h @ [v]) ..< length (h @ [v]) + length init]"
    by (subst upt_rec) (simp add: p)
  show ?case
    unfolding z unfolding p signals_step Cons.IH
    by (simp add: obj_read_obj_set map_add_def split: option.splits)
qed

lemma signals_plain_fold:
  "distinct (map fst init) \<Longrightarrow> ''__proto__'' \<notin> set (map fst init) \<Longrightarrow>
   set (map fst init) \<inter> set (map fst (own ob)) = {} \<Longrightarrow>
   fst (fold (\<lambda>(key, v) (stateSignals, h0).
           let (cell, h1) = signal v h0 in (obj_set key cell stateSignals, h1))
        init (ob, h))
   = ob\<lparr>own := own ob @ zip (map fst init) [length h ..< length h + length init]\<rparr>"
proof (induction init arbitrary: ob h)
  case Nil
  then show ?case by simp
next
  case (Cons p init)
  obtain k v where p: "p = (k, v)" by (cases p)
  from Cons.prems have k: "k \<noteq> ''__proto__''" "k \<notin> set (map fst (own ob))"
    by (auto simp: p)
  then have step: "obj_set k (length h) ob = ob\<lparr>own := own ob @ [(k, length h)]\<rparr>"
    by (simp add: obj_set_def update_fresh)
  have z: "zip (map fst (p # init)) [length h ..< length h + length (p # init)]
           = (k, length h) # zip (map fst init) [length (h @ [v]) ..< length (h @ [v]) + length init]"
    by (subst upt_rec) (simp add: p)
  from Cons.prems have "distinct (map fst init)" "''__proto__'' \<notin> set (map fst init)"
    "set (map fst init) \<inter> set (map fst (own (ob\<lparr>own := own ob @ [(k, length h)]\<rparr>))) = {}"
    by (auto simp: p)
  from Cons.IH [OF this, of "h @ [v]"] show ?case
    unfolding z unfolding p signals_step step by simp
qed

lemma signals_keys_fold:
  "set (map fst (own (fst (fold (\<lambda>(key, v) (stateSignals, h0).
           let (cell, h1) = signal v h0 in (obj_set key cell stateSignals, h1))
        init (ob, h)))))
   = set (map fst (own ob)) \<union> (set (map fst init) - {''__proto__''})"
proof (induction init arbitrary: ob h)
  case Nil
  then show ?case by simp
next
  case (Cons p init)
  obtain k v where p: "p = (k, v)" by (cases p)
  have "set (map fst (own (obj_set k (length h) ob)))
        = set (map fst (own ob)) \<union> ({k} - {''__proto__''})"
    using dom_update [of k "length h" "own ob"] by (auto simp: obj_set_def)
  then show ?case
    unfolding p signals_step Cons.IH by auto
qed

lemma state_signals_heap: "snd (create_state_signals init h) = h @ map snd init"
  unfolding create_state_signals_def by (rule signals_heap_fold)

lemma state_signals_read:
  assumes "distinct (obj_keys init)"
  shows "obj_read (fst (create_state_signals init h)) n
         = map_of (zip (map fst init) [length h ..< length h + length init]) n"
proof -
  from assms have "distinct (map fst (zip (map fst init) [length h ..< length h + length init]))"
    by (simp add: obj_keys_def map_fst_zip)
  then have "map_of (rev (zip (map fst init) [length h ..< length h + length init]))
             = map_of (zip (map fst init) [length h ..< length h + length init])"
    by (rule map_of_rev_distinct)
  moreover have "obj_read (empty_object :: addr built) n = None"
    by (simp add: obj_read_def empty_object_def)
  moreover have "(case x of Some cell \<Rightarrow> Some cell | None \<Rightarrow> None) = x" for x :: "addr option"
    by (simp split: option.splits)
  ultimately show ?thesis
    unfolding create_state_signals_def signals_read_fold
    by (simp only:)
qed

lemma state_signals_plain:
  assumes "distinct (obj_keys init)" and "''__proto__'' \<notin> set (obj_keys init)"
  shows "create_state_signals init h
         = (\<lparr>own = zip (map fst init) [length h ..< length h + length init], proto = None\<rparr>,
            h @ map snd init)"
proof -
  from assms have "fst (create_state_signals init h)
      = \<lparr>own = zip (map fst init) [length h ..< length h + length init], proto = None\<rparr>"
    unfolding create_state_signals_def
    by (subst signals_plain_fold) (simp_all add: obj_keys_def empty_object_def)
  with state_signals_heap [of init h] show ?thesis
    by (simp add: prod_eq_iff)
qed

lemma has_key_state_signals:
  "has_key key (own (fst (create_state_signals init h)))
   = (key \<in> set (obj_keys init) \<or> key \<in> set object_prototype_names)"
proof -
  have "''__proto__'' \<in> set object_prototype_names"
    by (simp add: object_prototype_names_def)
  then show ?thesis
    unfolding has_key_def obj_keys_def create_state_signals_def signals_keys_fold
    by (auto simp: empty_object_def)
qed

lemma create_derived_conflict:
  "find (\<lambda>key. has_key key (own sigs)) (map fst d) = Some k \<Longrightarrow>
   create_derived d sigs acc = Inl (Error (conflict_message k))"
  by (induction d sigs acc rule: create_derived.induct) (auto split: if_splits)

lemma create_derived_ok:
  "find (\<lambda>key. has_key key (own sigs)) (map fst d) = None \<Longrightarrow>
   create_derived d sigs acc = Inr (fold (\<lambda>(key, f) acc. obj_set key (f sigs) acc) d acc)"
  by (induction d sigs acc rule: create_derived.induct) (auto split: if_splits)

lemma createStore_signals:
  "snd (createStore cfg h) = snd (create_state_signals (initialState cfg) h)"
  by (simp add: createStore_def Let_def split: prod.splits sum.splits option.splits)

lemma createStore_conflict:
  assumes "derived cfg = Some d"
    and "find (\<lambda>key. key \<in> set (obj_keys (initialState cfg))
                      \<or> key \<in> set object_prototype_names) (obj_keys d) = Some k"
  shows "fst (createStore cfg h) = Inl (Error (conflict_message k))"
proof -
  obtain sigs h1 where s: "create_state_signals (initialState cfg) h = (sigs, h1)"
    by (cases "create_state_signals (initialState cfg) h")
  have "(\<lambda>key. has_key key (own sigs))
        = (\<lambda>key. key \<in> set (obj_keys (initialState cfg)) \<or> key \<in> set object_prototype_names)"
    using has_key_state_signals [of _ "initialState cfg" h] by (simp add: s)
  with assms(2) have "find (\<lambda>key. has_key key (own sigs)) (map fst d) = Some k"
    by (simp add: obj_keys_def)
  then have "create_derived d sigs empty_object = Inl (Error (conflict_message k))"
    by (rule create_derived_conflict)
  then show ?thesis by (simp add: createStore_def s assms(1))
qed

lemma createStore_ok:
  assumes "\<And>d. derived cfg = Some d \<Longrightarrow>
             find (\<lambda>key. key \<in> set (obj_keys (initialState cfg))
                         \<or> key \<in> set object_prototype_names) (obj_keys d) = None"
    and s: "create_state_signals (initialState cfg) h = (sigs, h1)"
  shows "createStore cfg h
         = (Inr (store_object sigs (derived_cells cfg sigs) (bound_actions cfg sigs)), h1)"
proof -
  have eq: "(\<lambda>key. has_key key (own sigs))
        = (\<lambda>key. key \<in> set (obj_keys (initialState cfg)) \<or> key \<in> set object_prototype_names)"
    using has_key_state_signals [of _ "initialState cfg" h] by (simp add: s)
  show ?thesis
  proof (cases "derived cfg")
    case None
    then show ?thesis
      by (simp add: createStore_def s derived_cells_def bound_actions_def)
  next
    case (Some d)
    with assms(1) have "find (\<lambda>key. has_key key (own sigs)) (map fst d) = None"
      by (simp add: eq obj_keys_def)
    then have "create_derived d sigs empty_object
               = Inr (fold (\<lambda>(key, f) acc. obj_set key (f sigs) acc) d empty_object)"
      by (rule create_derived_ok)
    then show ?thesis
      by (simp add: createStore_def s Some derived_cells_def bound_actions_def)
  qed
qed

lemma createStore_success:
  assumes "createStore cfg h = (Inr st, h1)"
  shows "create_state_signals (initialState cfg) h = (fst (create_state_signals (initialState cfg) h), h1)"
    and "\<And>d. derived cfg = Some d \<Longrightarrow>
           find (\<lambda>key. key \<in> set (obj_keys (initialState cfg))
                       \<or> key \<in> set object_prototype_names) (obj_keys d) = None"
    and "st = store_object (fst (create_state_signals (initialState cfg) h))
                (derived_cells cfg (fst (create_state_signals (initialState cfg) h)))
                (bound_actions cfg (fst (create_state_signals (initialState cfg) h)))"
proof -
  show s: "create_state_signals (initialState cfg) h
           = (fst (create_state_signals (initialState cfg) h), h1)"
    using createStore_signals [of cfg h] assms by (simp add: prod_eq_iff)
  show nc: "find (\<lambda>key. key \<in> set (obj_keys (initialState cfg))
                       \<or> key \<in> set object_prototype_names) (obj_keys d) = None"
    if "derived cfg = Some d" for d
  proof (cases "find (\<lambda>key. key \<in> set (obj_keys (initialState cfg))
                       \<or> key \<in> set object_prototype_names) (obj_keys d)")
    case None
    then show ?thesis .
  next
    case (Some k)
    from createStore_conflict [OF that Some, of h] assms show ?thesis by simp
  qed
  from createStore_ok [OF nc s] assms
  show "st = store_object (fst (create_state_signals (initialState cfg) h))
                (derived_cells cfg (fst (create_state_signals (initialState cfg) h)))
                (bound_actions cfg (fst (create_state_signals (initialState cfg) h)))"
    by simp
qed

lemma store_object_get:
  "obj_get (store_object sigs der acts) k =
     (if k = ''getStateSnapshot'' then Some (Snapshot (getStateSnapshot sigs))
      else if k = ''actions'' then Some (Actions acts)
      else (case map_of (rev (own der)) k of
              Some c \<Rightarrow> Some (Computed c)
            | None \<Rightarrow> map_option Signal (map_of (rev (own sigs)) k)))"
  by (simp add: obj_get_def store_object_def obj_spread_def map_of_obj_define map_of_obj_assign
        map_add_def map_of_rev_map_snd split: option.splits)

lemma call_snapshot_store_object:
  "call_getStateSnapshot (store_object sigs der acts) opt h = getStateSnapshot sigs opt h"
  by (simp add: call_getStateSnapshot_def store_object_get)

lemma call_action_store_object:
  "call_action (store_object sigs der acts) actionName args h =
     (case obj_read acts actionName of
        Some bound \<Rightarrow> bound args h
      | None \<Rightarrow> (Inl (Error (''store.actions.'' @ actionName @ '' is not a function'')), h))"
  by (simp add: call_action_def store_object_get)

lemma getStateSnapshot_plain:
  assumes "proto sigs = None" and "distinct (map fst (own sigs))"
    and "''__proto__'' \<notin> set (map fst (own sigs))"
  shows "getStateSnapshot sigs opt h
         = Inr (map (\<lambda>(key, cell). (key, read_value h cell)) (own sigs))"
proof -
  have "fold (\<lambda>(key, cell) state. obj_set key (read_value h cell) state) (own sigs) empty_object
        = empty_object\<lparr>own := own empty_object
              @ map (\<lambda>(key, cell). (key, read_value h cell)) (own sigs)\<rparr>"
    using assms(2,3) by (intro own_fold_plain) (simp_all add: empty_object_def)
  then show ?thesis
    by (simp add: getStateSnapshot_def assms(1) empty_object_def)
qed


lemma test_signals_created:
  "create_state_signals (initialState test_config) [] = (test_signals, test_heap)"
  by (subst state_signals_plain)
     (simp_all add: test_config_def obj_keys_def test_signals_def test_heap_def upt_rec)

lemma test_store_created: "createStore test_config [] = (Inr test_store, test_heap)"
  unfolding test_store_def
  by (rule createStore_ok [OF _ test_signals_created])
     (simp add: test_config_def obj_keys_def object_prototype_names_def)

lemma test_snapshot:
  "call_getStateSnapshot test_store opt test_heap
   = Inr [(''foo'', VStr ''bar''), (''baz'', VStr ''qux'')]"
  unfolding test_store_def call_snapshot_store_object
  by (subst getStateSnapshot_plain)
     (simp_all add: test_signals_def test_heap_def read_value_def)

lemma test_derived_cells:
  "derived_cells test_config test_signals
   = \<lparr>own = [(''derivedFoo'', derivedFoo test_signals)], proto = None\<rparr>"
  by (simp add: derived_cells_def test_config_def obj_set_def empty_object_def)

lemma test_bound_actions:
  "bound_actions test_config test_signals
   = \<lparr>own = [(''setFoo'', bind_action setFoo test_signals),
              (''putFoo'', bind_action putFoo test_signals)],
      proto = None\<rparr>"
  by (simp add: bound_actions_def test_config_def create_actions_def obj_set_def
      empty_object_def)

lemma putFoo_test:
  "putFoo test_signals [VNum 3] test_heap = (Inr (VNum 3), [VNum 3, VStr ''qux''])"
  by (simp add: putFoo_def test_signals_def test_heap_def obj_read_def write_value_def
      first_arg_def)

lemma zip_cells_lookup:
  assumes "distinct (map fst init)" and "i < length init"
  shows "map_of (zip (map fst init) [n ..< n + length init]) (fst (init ! i)) = Some (n + i)"
proof -
  let ?z = "zip (map fst init) [n ..< n + length init]"
  from assms(2) have "?z ! i = (fst (init ! i), n + i)" by simp
  moreover from assms(2) have "i < length ?z" by simp
  ultimately have "(fst (init ! i), n + i) \<in> set ?z" by (metis nth_mem)
  moreover from assms(1) have "distinct (map fst ?z)" by (simp add: map_fst_zip)
  ultimately show ?thesis by simp
qed



section \<open>What the persistence middleware builds\<close>

lemma localStoragePlugin_initialState:
  "initialState (fst (localStoragePlugin JSON cfg opts e)) =
     (let storedState = fst (load_stored_state
                               (case deserialize opts of None \<Rightarrow> parse JSON | Some f \<Rightarrow> f)
                               (name opts) e)
      in if merge opts = Some False then obj_assign [] storedState
         else obj_spread (initialState cfg) storedState)"
  by (auto simp: localStoragePlugin_def Let_def split: prod.splits option.splits)

lemma localStoragePlugin_env:
  "snd (localStoragePlugin JSON cfg opts e) =
     snd (load_stored_state
            (case deserialize opts of None \<Rightarrow> parse JSON | Some f \<Rightarrow> f) (name opts) e)"
  by (simp add: localStoragePlugin_def Let_def split: prod.splits)

lemma localStoragePlugin_rest:
  "derived (fst (localStoragePlugin JSON cfg opts e)) = derived cfg"
  "actions (fst (localStoragePlugin JSON cfg opts e)) = actions cfg"
  by (simp_all add: localStoragePlugin_def Let_def split: prod.splits)

lemma localStoragePlugin_hook:
  "onStoreCreated (fst (localStoragePlugin JSON cfg opts e)) =
     Some (newOnStoreCreated (initialState (fst (localStoragePlugin JSON cfg opts e)))
             (name opts)
             (case serialize opts of None \<Rightarrow> stringify JSON | Some f \<Rightarrow> f)
             (onStoreCreated cfg))"
  by (simp add: localStoragePlugin_def Let_def split: prod.splits)

lemma createStore_cong:
  "initialState c1 = initialState c2 \<Longrightarrow> derived c1 = derived c2 \<Longrightarrow> actions c1 = actions c2
   \<Longrightarrow> createStore c1 h = createStore c2 h"
  by (simp add: createStore_def Let_def split: prod.splits sum.splits)

lemma hooked_initial_state:
  "initialState (fst (localStoragePlugin toy_json hooked_config (test_options None)
                        (test_env ''foo=stored'')))
   = [(''foo'', VStr ''stored''), (''baz'', VStr ''qux'')]"
  by (simp add: localStoragePlugin_initialState load_stored_state_def read_stored_state_def
      getItem_def test_options_def test_env_def obj_get_def toy_json_def toy_deserialize_def
      obj_spread_def obj_assign_def obj_define_def hooked_config_def test_config_def)

lemma test_save:
  assumes "heap e = test_heap" and "write_fault e = None"
  shows "saveToStorage test_store ''app'' toy_serialize e
         = e\<lparr>items := AList.update ''app'' ''foobaz'' (items e)\<rparr>"
  by (simp add: saveToStorage_def try_save_def assms test_snapshot toy_serialize_def
      setItem_def)

lemma test_sync:
  "sync_effect [(''foo'', VStr ''stored''), (''baz'', VStr ''qux'')] test_store ''app''
     toy_serialize (env test_world)
   = (env test_world)\<lparr>items := [(''app'', ''foobaz'')]\<rparr>"
proof -
  have h: "heap (env test_world) = test_heap" "write_fault (env test_world) = None"
    "items (env test_world) = [(''app'', ''foo=stored'')]"
    by (simp_all add: test_world_def test_env_def)
  have s1: "saveToStorage test_store ''app'' toy_serialize (env test_world)
            = (env test_world)\<lparr>items := [(''app'', ''foobaz'')]\<rparr>"
    by (simp add: test_save h)
  have s2: "saveToStorage test_store ''app'' toy_serialize
              ((env test_world)\<lparr>items := [(''app'', ''foobaz'')]\<rparr>)
            = (env test_world)\<lparr>items := [(''app'', ''foobaz'')]\<rparr>"
    by (simp add: test_save h)
  show ?thesis
    by (simp add: sync_effect_def Let_def s1 s2)
qed

section \<open>Properties of the store factory and its middleware\<close>

subsection \<open>Middleware composition\<close>

text \<open>
  C4. Composing two transforms applies them left to right, \<open>compose(m1, m2)(c) = m2(m1(c))\<close>,
  and composing no transform at all is the identity, \<open>compose()(c) = c\<close>. In general the
  first transform is applied to the configuration and the remaining ones to its output.
\<close>

theorem compose_two_and_zero:
  "compose [m1, m2] c = m2 (m1 c) \<and> compose [] c = c
   \<and> compose (m # ms) c = compose ms (m c)"
  by (simp add: compose_def)

subsection \<open>Cells\<close>

text \<open>
  C9. For a configuration whose \<open>initialState\<close> is a plain object, \<open>createStore\<close> creates
  exactly one cell per field: the heap grows by as many cells as \<open>initialState\<close> has
  fields and is otherwise unchanged; the cell of the \<open>i\<close>-th field is the \<open>i\<close>-th new
  cell, it holds the value configured for that field, and \<open>stateSignals\<close> yields it when
  read under the field's name; \<open>stateSignals\<close> yields no other cell. Its own keys are the
  field names, but for a field named \<open>__proto__\<close>, whose cell becomes the prototype. This
  holds for the cells whether or not the derivations are accepted afterwards.
\<close>

theorem createStore_one_cell_per_field:
  assumes "distinct (obj_keys (initialState cfg))"
  shows "\<exists>sigs h1. create_state_signals (initialState cfg) h = (sigs, h1)
           \<and> snd (createStore cfg h) = h1
           \<and> length h1 = length h + length (initialState cfg)
           \<and> take (length h) h1 = h
           \<and> (\<forall>i < length (initialState cfg).
                 obj_read sigs (fst (initialState cfg ! i)) = Some (length h + i)
                 \<and> read_value h1 (length h + i) = snd (initialState cfg ! i))
           \<and> (\<forall>key cell. obj_read sigs key = Some cell \<longrightarrow>
                 key \<in> set (obj_keys (initialState cfg)) \<and> length h \<le> cell \<and> cell < length h1)
           \<and> set (obj_keys (own sigs)) = set (obj_keys (initialState cfg)) - {''__proto__''}"
proof -
  let ?init = "initialState cfg"
  let ?sigs = "fst (create_state_signals ?init h)"
  let ?h1 = "h @ map snd ?init"
  let ?z = "zip (map fst ?init) [length h ..< length h + length ?init]"
  from assms have d: "distinct (map fst ?init)" by (simp add: obj_keys_def)
  have eq: "create_state_signals ?init h = (?sigs, ?h1)"
    using state_signals_heap [of ?init h] by (simp add: prod_eq_iff)
  have rd: "obj_read ?sigs n = map_of ?z n" for n
    by (rule state_signals_read [OF assms])
  have "snd (createStore cfg h) = ?h1"
    by (simp add: createStore_signals state_signals_heap)
  moreover have "length ?h1 = length h + length ?init" by simp
  moreover have "take (length h) ?h1 = h" by simp
  moreover have "\<forall>i < length ?init.
       obj_read ?sigs (fst (?init ! i)) = Some (length h + i)
       \<and> read_value ?h1 (length h + i) = snd (?init ! i)"
    by (simp add: rd zip_cells_lookup [OF d] read_value_def nth_append)
  moreover have "\<forall>key cell. obj_read ?sigs key = Some cell \<longrightarrow>
       key \<in> set (obj_keys ?init) \<and> length h \<le> cell \<and> cell < length ?h1"
  proof (intro allI impI)
    fix key cell
    assume "obj_read ?sigs key = Some cell"
    then have "(key, cell) \<in> set ?z" by (simp add: rd map_of_SomeD)
    then have "key \<in> set (map fst ?init)" and "cell \<in> set [length h ..< length h + length ?init]"
      by (auto dest: set_zip_leftD set_zip_rightD)
    then show "key \<in> set (obj_keys ?init) \<and> length h \<le> cell \<and> cell < length ?h1"
      by (simp add: obj_keys_def)
  qed
  moreover have "set (obj_keys (own ?sigs)) = set (obj_keys ?init) - {''__proto__''}"
    unfolding obj_keys_def create_state_signals_def signals_keys_fold
    by (simp add: empty_object_def)
  ultimately show ?thesis using eq by blast
qed

theorem createStore_one_cell_per_field_witness:
  "distinct (obj_keys (initialState test_config))
   \<and> create_state_signals (initialState test_config) [VNull]
       = (\<lparr>own = [(''foo'', 1), (''baz'', 2)], proto = None\<rparr>,
          [VNull, VStr ''bar'', VStr ''qux''])
   \<and> snd (createStore test_config [VNull]) = [VNull, VStr ''bar'', VStr ''qux'']"
proof -
  have d: "distinct (obj_keys (initialState test_config))"
    by (simp add: test_config_def obj_keys_def)
  have e: "create_state_signals (initialState test_config) [VNull]
           = (\<lparr>own = [(''foo'', 1), (''baz'', 2)], proto = None\<rparr>,
              [VNull, VStr ''bar'', VStr ''qux''])"
    by (subst state_signals_plain) (simp_all add: test_config_def obj_keys_def upt_rec)
  from createStore_one_cell_per_field [OF d, of "[VNull]"]
  obtain sigs h1 where "create_state_signals (initialState test_config) [VNull] = (sigs, h1)"
    and "snd (createStore test_config [VNull]) = h1"
    by blast
  with e d show ?thesis by simp
qed

subsection \<open>Name collisions\<close>




subsection \<open>Snapshots\<close>




text \<open>
  C1. The snapshot function of \<open>createStore\<close> declares no parameter. On the store of the
  repository's test, \<open>getStateSnapshot({ withDerived: true })\<close> returns the two state
  fields only; the derived cell \<open>derivedFoo\<close> exists on the store and has a current value,
  but the snapshot has no such key.
\<close>

theorem snapshot_with_derived_requested:
  "createStore test_config [] = (Inr test_store, test_heap)
   \<and> call_getStateSnapshot test_store (Some (SnapshotOptions True)) test_heap
       = Inr [(''foo'', VStr ''bar''), (''baz'', VStr ''qux'')]
   \<and> map_option (\<lambda>p. property_value p test_heap) (obj_get test_store ''derivedFoo'')
       = Some (VStr ''bar'')"
proof (intro conjI)
  show "createStore test_config [] = (Inr test_store, test_heap)"
    by (rule test_store_created)
  show "call_getStateSnapshot test_store (Some (SnapshotOptions True)) test_heap
        = Inr [(''foo'', VStr ''bar''), (''baz'', VStr ''qux'')]"
    by (rule test_snapshot)
  have "derivedFoo test_signals test_heap = VStr ''bar''"
    by (simp add: derivedFoo_def obj_read_def test_signals_def test_heap_def read_value_def)
  then show "map_option (\<lambda>p. property_value p test_heap) (obj_get test_store ''derivedFoo'')
        = Some (VStr ''bar'')"
    by (simp add: test_store_def store_object_get test_derived_cells property_value_def)
qed

subsection \<open>Bound actions\<close>

text \<open>
  C2, as stated, fails on the return value: \<open>putFoo\<close> returns the value it assigns, the
  bound \<open>store.actions.putFoo\<close> returns \<open>undefined\<close>; both leave the same heap.
\<close>

theorem bound_action_drops_result:
  "createStore test_config [] = (Inr test_store, test_heap)
   \<and> call_action test_store ''putFoo'' [VNum 3] test_heap
       = (Inr VUndefined, [VNum 3, VStr ''qux''])
   \<and> putFoo test_signals [VNum 3] test_heap = (Inr (VNum 3), [VNum 3, VStr ''qux''])"
proof (intro conjI)
  show "createStore test_config [] = (Inr test_store, test_heap)"
    by (rule test_store_created)
  show "putFoo test_signals [VNum 3] test_heap = (Inr (VNum 3), [VNum 3, VStr ''qux''])"
    by (rule putFoo_test)
  then show "call_action test_store ''putFoo'' [VNum 3] test_heap
        = (Inr VUndefined, [VNum 3, VStr ''qux''])"
    by (simp add: test_store_def call_action_store_object test_bound_actions obj_read_def
        bind_action_def)
qed

text \<open>
  C2, amended. For every action of the action map, calling the bound action with
  arguments \<open>args\<close> leaves the heap that the raw function leaves when called with the
  store's cells and \<open>args\<close>, so every later snapshot agrees; an error thrown by the raw
  function is thrown by the bound one; and when the raw function returns, the bound
  action returns \<open>undefined\<close>, whatever the raw function returned.
\<close>

theorem bound_action_same_writes:
  assumes "createStore cfg h = (Inr st, h1)"
    and "actions cfg = Some acts"
    and "distinct (obj_keys acts)"
    and "(actionName, raw) \<in> set acts"
  shows "snd (call_action st actionName args h2)
           = snd (raw (fst (create_state_signals (initialState cfg) h)) args h2)
         \<and> fst (call_action st actionName args h2)
           = (case fst (raw (fst (create_state_signals (initialState cfg) h)) args h2) of
                Inl err \<Rightarrow> Inl err
              | Inr r \<Rightarrow> Inr VUndefined)
         \<and> call_getStateSnapshot st opt (snd (call_action st actionName args h2))
           = call_getStateSnapshot st opt
               (snd (raw (fst (create_state_signals (initialState cfg) h)) args h2))"
proof -
  let ?sigs = "fst (create_state_signals (initialState cfg) h)"
  from assms(3) have d: "distinct (map fst acts)" by (simp add: obj_keys_def)
  have "obj_read (bound_actions cfg ?sigs) actionName
        = map_option (\<lambda>raw. bind_action raw ?sigs) (map_of acts actionName)"
    unfolding bound_actions_def assms(2) option.case create_actions_def
    by (rule obj_read_fold_distinct [OF d])
  moreover from d assms(4) have "map_of acts actionName = Some raw" by simp
  ultimately have "obj_read (bound_actions cfg ?sigs) actionName = Some (bind_action raw ?sigs)"
    by simp
  with createStore_success(3) [OF assms(1)]
  have "call_action st actionName args h2 = bind_action raw ?sigs args h2"
    by (simp add: call_action_store_object)
  then show ?thesis
    by (simp add: bind_action_def split: prod.splits sum.splits)
qed

theorem bound_action_same_writes_witness:
  "createStore test_config [] = (Inr test_store, test_heap)
   \<and> actions test_config = Some [(''setFoo'', setFoo), (''putFoo'', putFoo)]
   \<and> distinct (obj_keys [(''setFoo'', setFoo), (''putFoo'', putFoo)])
   \<and> (''putFoo'', putFoo) \<in> set [(''setFoo'', setFoo), (''putFoo'', putFoo)]
   \<and> snd (call_action test_store ''putFoo'' [VNum 3] test_heap) = [VNum 3, VStr ''qux'']
   \<and> fst (call_action test_store ''putFoo'' [VNum 3] test_heap) = Inr VUndefined"
proof -
  have a: "actions test_config = Some [(''setFoo'', setFoo), (''putFoo'', putFoo)]"
    by (simp add: test_config_def)
  have d: "distinct (obj_keys [(''setFoo'', setFoo), (''putFoo'', putFoo)])"
    by (simp add: obj_keys_def)
  have m: "(''putFoo'', putFoo) \<in> set [(''setFoo'', setFoo), (''putFoo'', putFoo)]"
    by simp
  note p = putFoo_test
  from bound_action_same_writes [OF test_store_created a d m, of "[VNum 3]" test_heap None]
  show ?thesis
    using a d m test_store_created by (simp add: test_signals_created p)
qed

subsection \<open>State fields named like the store's own members\<close>




subsection \<open>Persistence middleware\<close>

text \<open>
  C5. When the item stored under \<open>name\<close> is a non-empty text that \<open>deserialize\<close> turns
  into the record \<open>hydrated\<close>, the configuration returned by the middleware has the initial
  state \<open>{ ...config.initialState, ...hydrated }\<close> unless \<open>merge\<close> is \<open>false\<close>: every key of
  \<open>hydrated\<close> has the hydrated value, every other key has the base value. With
  \<open>merge: false\<close> the initial state is \<open>hydrated\<close> alone, so a base field that was not
  stored is missing. \<open>merge\<close> left out counts as \<open>true\<close>.
\<close>

theorem persisted_initial_state:
  assumes "getItem (name opts) e = Inr (Some s)"
    and "s \<noteq> []"
    and "(case deserialize opts of None \<Rightarrow> parse JSON | Some f \<Rightarrow> f) s = Inr hydrated"
    and "distinct (obj_keys (initialState cfg))"
    and "distinct (obj_keys hydrated)"
  shows "initialState (fst (localStoragePlugin JSON cfg opts e))
           = (if merge opts = Some False then hydrated
              else obj_spread (initialState cfg) hydrated)
         \<and> obj_get (initialState (fst (localStoragePlugin JSON cfg opts e))) key
           = (if merge opts = Some False then obj_get hydrated key
              else (case obj_get hydrated key of
                      Some v \<Rightarrow> Some v
                    | None \<Rightarrow> obj_get (initialState cfg) key))"
proof -
  let ?deser = "case deserialize opts of None \<Rightarrow> parse JSON | Some f \<Rightarrow> f"
  from assms(4,5) have d: "distinct (map fst (initialState cfg))" "distinct (map fst hydrated)"
    by (simp_all add: obj_keys_def)
  from assms(1-3) have "read_stored_state ?deser (name opts) e = Inr hydrated"
    by (simp add: read_stored_state_def)
  then have "fst (load_stored_state ?deser (name opts) e) = hydrated"
    by (simp add: load_stored_state_def)
  then have init: "initialState (fst (localStoragePlugin JSON cfg opts e))
           = (if merge opts = Some False then hydrated
              else obj_spread (initialState cfg) hydrated)"
    by (simp add: localStoragePlugin_initialState obj_assign_empty [OF d(2)])
  have "map_of (obj_spread (initialState cfg) hydrated) key
        = (case map_of hydrated key of Some v \<Rightarrow> Some v | None \<Rightarrow> map_of (initialState cfg) key)"
    by (simp add: map_of_obj_spread [OF d] map_add_def)
  with init show ?thesis by (simp add: obj_get_def cong: option.case_cong)
qed

theorem persisted_initial_state_witness:
  "getItem (name (test_options None)) (test_env ''foo=stored'') = Inr (Some ''foo=stored'')
   \<and> ''foo=stored'' \<noteq> []
   \<and> parse toy_json ''foo=stored'' = Inr [(''foo'', VStr ''stored'')]
   \<and> distinct (obj_keys (initialState test_config))
   \<and> distinct (obj_keys [(''foo'', VStr ''stored'')])
   \<and> initialState (fst (localStoragePlugin toy_json test_config (test_options None)
                           (test_env ''foo=stored'')))
       = [(''foo'', VStr ''stored''), (''baz'', VStr ''qux'')]
   \<and> initialState (fst (localStoragePlugin toy_json test_config (test_options (Some True))
                           (test_env ''foo=stored'')))
       = [(''foo'', VStr ''stored''), (''baz'', VStr ''qux'')]
   \<and> initialState (fst (localStoragePlugin toy_json test_config (test_options (Some False))
                           (test_env ''foo=stored'')))
       = [(''foo'', VStr ''stored'')]
   \<and> obj_get (initialState (fst (localStoragePlugin toy_json test_config
                                    (test_options (Some False)) (test_env ''foo=stored''))))
         ''baz''
       = None"
proof -
  have g: "getItem (name (test_options m)) (test_env ''foo=stored'') = Inr (Some ''foo=stored'')"
    for m
    by (simp add: getItem_def test_options_def test_env_def obj_get_def)
  have n: "''foo=stored'' \<noteq> []" by simp
  have p: "(case deserialize (test_options m) of None \<Rightarrow> parse toy_json | Some f \<Rightarrow> f)
             ''foo=stored'' = Inr [(''foo'', VStr ''stored'')]" for m
    by (simp add: test_options_def toy_json_def toy_deserialize_def)
  have d1: "distinct (obj_keys (initialState test_config))"
    by (simp add: test_config_def obj_keys_def)
  have d2: "distinct (obj_keys [(''foo'', VStr ''stored'')])"
    by (simp add: obj_keys_def)
  have m: "merge (test_options x) = x" for x
    by (simp add: test_options_def)
  have sp: "obj_spread (initialState test_config) [(''foo'', VStr ''stored'')]
            = [(''foo'', VStr ''stored''), (''baz'', VStr ''qux'')]"
    by (simp add: obj_spread_def obj_assign_def obj_define_def test_config_def)
  from persisted_initial_state [OF g n p d1 d2, where key = "''baz''" and m1 = None]
    persisted_initial_state [OF g n p d1 d2, where key = "''baz''" and m1 = "Some True"]
    persisted_initial_state [OF g n p d1 d2, where key = "''baz''" and m1 = "Some False"]
  show ?thesis
    using g [of None] d1 d2
    by (simp add: m sp toy_json_def toy_deserialize_def obj_get_def)
qed

text \<open>
  C6. When \<open>getItem\<close> throws, or \<open>deserialize\<close> throws on the stored text, and \<open>merge\<close> is
  not \<open>false\<close>, the middleware still returns a configuration: its initial state is the base
  initial state, the environment is unchanged but for one line on the console, and
  \<open>createStore\<close> does on the returned configuration exactly what it does on the base one.
  The middleware has no other step that can throw, so its result is a configuration in
  every case.
\<close>

theorem hydration_failure_recovered:
  assumes "getItem (name opts) e = Inl err
           \<or> (\<exists>s. getItem (name opts) e = Inr (Some s) \<and> s \<noteq> []
                  \<and> (case deserialize opts of None \<Rightarrow> parse JSON | Some f \<Rightarrow> f) s = Inl err)"
    and "merge opts \<noteq> Some False"
    and "distinct (obj_keys (initialState cfg))"
  shows "initialState (fst (localStoragePlugin JSON cfg opts e)) = initialState cfg
         \<and> snd (localStoragePlugin JSON cfg opts e)
           = console_error ''Failed to load state from localStorage:'' (error_text err) e
         \<and> createStore (fst (localStoragePlugin JSON cfg opts e)) h = createStore cfg h"
proof -
  let ?deser = "case deserialize opts of None \<Rightarrow> parse JSON | Some f \<Rightarrow> f"
  from assms(3) have d: "distinct (map fst (initialState cfg))"
    by (simp add: obj_keys_def)
  from assms(1) have "read_stored_state ?deser (name opts) e = Inl err"
    by (auto simp: read_stored_state_def)
  then have l: "load_stored_state ?deser (name opts) e
           = ([], console_error ''Failed to load state from localStorage:'' (error_text err) e)"
    by (simp add: load_stored_state_def)
  with assms(2) have init: "initialState (fst (localStoragePlugin JSON cfg opts e)) = initialState cfg"
    by (simp add: localStoragePlugin_initialState obj_spread_empty [OF d])
  moreover from l have "snd (localStoragePlugin JSON cfg opts e)
           = console_error ''Failed to load state from localStorage:'' (error_text err) e"
    by (simp add: localStoragePlugin_env)
  moreover have "createStore (fst (localStoragePlugin JSON cfg opts e)) h = createStore cfg h"
    by (rule createStore_cong) (simp_all add: init localStoragePlugin_rest)
  ultimately show ?thesis by simp
qed

theorem hydration_failure_recovered_witness:
  "(getItem (name (test_options None)) (test_env ''garbage'') = Inl (Error ''Unexpected token'')
    \<or> (\<exists>s. getItem (name (test_options None)) (test_env ''garbage'') = Inr (Some s) \<and> s \<noteq> []
          \<and> (case deserialize (test_options None) of None \<Rightarrow> parse toy_json | Some f \<Rightarrow> f) s
              = Inl (Error ''Unexpected token'')))
   \<and> merge (test_options None) \<noteq> Some False
   \<and> distinct (obj_keys (initialState test_config))
   \<and> initialState (fst (localStoragePlugin toy_json test_config (test_options None)
                          (test_env ''garbage'')))
       = [(''foo'', VStr ''bar''), (''baz'', VStr ''qux'')]
   \<and> console (snd (localStoragePlugin toy_json test_config (test_options None)
                      (test_env ''garbage'')))
       = [(''Failed to load state from localStorage:'', ''Unexpected token'')]
   \<and> createStore (fst (localStoragePlugin toy_json test_config (test_options None)
                          (test_env ''garbage''))) []
       = (Inr test_store, test_heap)"
proof -
  have a: "getItem (name (test_options None)) (test_env ''garbage'') = Inl (Error ''Unexpected token'')
    \<or> (\<exists>s. getItem (name (test_options None)) (test_env ''garbage'') = Inr (Some s) \<and> s \<noteq> []
          \<and> (case deserialize (test_options None) of None \<Rightarrow> parse toy_json | Some f \<Rightarrow> f) s
              = Inl (Error ''Unexpected token''))"
    by (simp add: getItem_def test_options_def test_env_def obj_get_def toy_json_def
        toy_deserialize_def)
  have m: "merge (test_options None) \<noteq> Some False"
    by (simp add: test_options_def)
  have d: "distinct (obj_keys (initialState test_config))"
    by (simp add: test_config_def obj_keys_def)
  have i: "initialState test_config = [(''foo'', VStr ''bar''), (''baz'', VStr ''qux'')]"
    by (simp add: test_config_def)
  from hydration_failure_recovered [OF a m d, of "[]"]
  have "initialState (fst (localStoragePlugin toy_json test_config (test_options None)
                          (test_env ''garbage''))) = initialState test_config"
    and "snd (localStoragePlugin toy_json test_config (test_options None) (test_env ''garbage''))
         = console_error ''Failed to load state from localStorage:''
             (error_text (Error ''Unexpected token'')) (test_env ''garbage'')"
    and "createStore (fst (localStoragePlugin toy_json test_config (test_options None)
                          (test_env ''garbage''))) [] = createStore test_config []"
    by simp_all
  then show ?thesis
    using a m d
    by (simp only: i test_store_created)
       (simp add: console_error_def error_text_def test_env_def)
qed

text \<open>
  C7. The configuration returned by the middleware always carries a post-creation hook.
  Invoked with a store, the hook first registers the synchronization effect (which runs
  once at registration); when the base configuration carried a hook, that hook is then
  applied, once, to the same store in the world the registration left, and its result is
  the result of the new hook; without a prior hook the new hook ends after the
  registration.
\<close>

theorem persistence_hook_chained:
  "\<exists>hook. onStoreCreated (fst (localStoragePlugin JSON cfg opts e)) = Some hook
     \<and> (\<forall>st w.
           hook st w =
             (let wired = effect (sync_effect (initialState (fst (localStoragePlugin JSON cfg opts e)))
                                    st (name opts)
                                    (case serialize opts of None \<Rightarrow> stringify JSON | Some f \<Rightarrow> f))
                                 w
              in case onStoreCreated cfg of
                   Some prior \<Rightarrow> prior st wired
                 | None \<Rightarrow> (Inr (), wired)))"
  by (simp add: localStoragePlugin_hook newOnStoreCreated_def)

theorem persistence_hook_chained_witness:
  "\<exists>hook. onStoreCreated (fst (localStoragePlugin toy_json hooked_config (test_options None)
                                (test_env ''foo=stored''))) = Some hook
     \<and> fst (hook test_store test_world) = Inr ()
     \<and> items (env (snd (hook test_store test_world))) = [(''app'', ''foobaz'')]
     \<and> console (env (snd (hook test_store test_world))) = [(''hook'', ''foobaz'')]
     \<and> length (effects (snd (hook test_store test_world))) = 1"
proof -
  from persistence_hook_chained [of toy_json hooked_config "test_options None"
      "test_env ''foo=stored''"]
  obtain hook where
    h: "onStoreCreated (fst (localStoragePlugin toy_json hooked_config (test_options None)
                                (test_env ''foo=stored''))) = Some hook"
    and run: "hook test_store test_world =
             (let wired = effect (sync_effect (initialState (fst (localStoragePlugin toy_json
                                      hooked_config (test_options None) (test_env ''foo=stored''))))
                                    test_store (name (test_options None))
                                    (case serialize (test_options None) of
                                       None \<Rightarrow> stringify toy_json | Some f \<Rightarrow> f))
                                 test_world
              in case onStoreCreated hooked_config of
                   Some prior \<Rightarrow> prior test_store wired
                 | None \<Rightarrow> (Inr (), wired))"
    by blast
  have "hook test_store test_world
        = logging_hook test_store
            (effect (sync_effect [(''foo'', VStr ''stored''), (''baz'', VStr ''qux'')]
                       test_store ''app'' toy_serialize) test_world)"
    unfolding run hooked_initial_state
    by (simp add: test_options_def toy_json_def hooked_config_def)
  then have "fst (hook test_store test_world) = Inr ()"
    and "items (env (snd (hook test_store test_world))) = [(''app'', ''foobaz'')]"
    and "console (env (snd (hook test_store test_world))) = [(''hook'', ''foobaz'')]"
    and "length (effects (snd (hook test_store test_world))) = 1"
    by (simp_all add: logging_hook_def effect_def test_sync console_error_def obj_get_def)
       (simp_all add: test_world_def test_env_def)
  with h show ?thesis by blast
qed

end
